theory Spec2Isabelle
  imports Main "HOL-Library.Word" "HOL-Library.Sublist"
begin

unbundle bit_operations_syntax

section \<open>Bytes and fingerprints\<close>

text \<open>
  Both programs fingerprint content with \<^verbatim>\<open>crypto/md5\<close> and print the sixteen bytes of
  the sum in lower-case hexadecimal (\<^verbatim>\<open>hex.EncodeToString(ts[:])\<close> in the server,
  \<^verbatim>\<open>fmt.Sprintf("%x", md5.Sum(buf))\<close> in the client; both give two digits per byte).
  The digest function belongs to the standard library, so it is a parameter \<open>md5\<close> of
  everything below. Its result type \<^verbatim>\<open>[16]byte\<close> is a 128-bit word, most significant
  byte first.
\<close>

type_synonym byte = "8 word"
type_synonym bytes = "byte list"
type_synonym md5sum = "128 word"
type_synonym digest = "bytes \<Rightarrow> md5sum"

definition hextable :: string where
  "hextable = ''0123456789abcdef''"

fun EncodeToString :: "bytes \<Rightarrow> string" where
  "EncodeToString [] = []"
| "EncodeToString (v # src) =
     hextable ! unat (drop_bit 4 v) # hextable ! unat (v AND 15) # EncodeToString src"

definition sum_bytes :: "md5sum \<Rightarrow> bytes" where
  "sum_bytes s = map (\<lambda>i. ucast (drop_bit (8 * (15 - i)) s)) [0..<16]"

definition hexsum :: "digest \<Rightarrow> bytes \<Rightarrow> string" where
  "hexsum md5 b = EncodeToString (sum_bytes (md5 b))"

section \<open>The object store\<close>

text \<open>
  Modelled from the spec: the message types of \<^verbatim>\<open>proto/rv\<close> are generated code that is
  not among the sources; the spec gives the request as filename, content, digest and a
  project out of ROUTEVIEWS, RIPE_RIS, RPKI_RARC and UNKNOWN, and the response as a status
  SUCCESS or FAIL. \<open>STATUS_UNSET\<close> is the status of a freshly allocated response.
\<close>

datatype FileRequest_Project = UNKNOWN | ROUTEVIEWS | RIPE_RIS | RPKI_RARC

datatype FileResponse_Status = STATUS_UNSET | SUCCESS | FAIL

record FileRequest =
  Filename :: string
  Content :: bytes
  Md5Sum :: string
  Project :: FileRequest_Project

record FileResponse =
  Status :: FileResponse_Status

text \<open>
  The bucket as the storage service holds it. An object is its bytes and the project that
  its metadata records under \<^verbatim>\<open>converter.ProjectMetadataKey\<close> (the only metadata key the
  programs touch). \<open>calls\<close> lists the mutating requests made to the service, oldest first:
  a state that comes back unchanged means that no writer was opened and no update sent.

  The service is outside the repository. What it does is fixed here as the client library
  documents it: a writer commits the object when \<^verbatim>\<open>Close\<close> succeeds and not before, an
  error of the writer is sticky, a new object replaces the old one together with its
  metadata, and \<^verbatim>\<open>Update\<close> and \<^verbatim>\<open>Attrs\<close> of a missing object fail with
  \<^verbatim>\<open>storage: object doesn't exist\<close>. Whether a request fails for another reason
  (network, permissions) is given by \<open>storage_faults\<close>, per object name.
\<close>

record gcs_object =
  obj_bytes :: bytes
  obj_project :: "FileRequest_Project option"

datatype gcs_call = OpenWriter string | UpdateMeta string FileRequest_Project

record gcs =
  objects :: "string \<rightharpoonup> gcs_object"
  calls :: "gcs_call list"

record storage_faults =
  attrs_fault :: "string \<Rightarrow> string option"
  copy_fault :: "string \<Rightarrow> string option"
  close_fault :: "string \<Rightarrow> string option"
  update_fault :: "string \<Rightarrow> string option"

definition ErrObjectNotExist :: string where
  "ErrObjectNotExist = ''storage: object doesn't exist''"

record Writer =
  w_name :: string
  w_buf :: bytes
  w_err :: "string option"

definition NewWriter :: "gcs \<Rightarrow> string \<Rightarrow> gcs \<times> Writer" where
  "NewWriter st fn =
     (st\<lparr>calls := calls st @ [OpenWriter fn]\<rparr>, \<lparr>w_name = fn, w_buf = [], w_err = None\<rparr>)"

definition io_Copy :: "storage_faults \<Rightarrow> Writer \<Rightarrow> bytes \<Rightarrow> Writer \<times> string option" where
  "io_Copy sf wc b =
     (case copy_fault sf (w_name wc) of
        Some e \<Rightarrow> (wc\<lparr>w_err := Some e\<rparr>, Some e)
      | None \<Rightarrow> (wc\<lparr>w_buf := w_buf wc @ b\<rparr>, None))"

definition Writer_Close :: "storage_faults \<Rightarrow> gcs \<Rightarrow> Writer \<Rightarrow> gcs \<times> string option" where
  "Writer_Close sf st wc =
     (case w_err wc of
        Some e \<Rightarrow> (st, Some e)
      | None \<Rightarrow>
          (case close_fault sf (w_name wc) of
             Some e \<Rightarrow> (st, Some e)
           | None \<Rightarrow>
               (st\<lparr>objects := (objects st)
                      (w_name wc \<mapsto> \<lparr>obj_bytes = w_buf wc, obj_project = None\<rparr>)\<rparr>,
                None)))"

definition Object_Update ::
  "storage_faults \<Rightarrow> gcs \<Rightarrow> string \<Rightarrow> FileRequest_Project \<Rightarrow> gcs \<times> string option" where
  "Object_Update sf st obj proj =
     (let st' = st\<lparr>calls := calls st @ [UpdateMeta obj proj]\<rparr> in
      case update_fault sf obj of
        Some e \<Rightarrow> (st', Some e)
      | None \<Rightarrow>
          (case objects st obj of
             None \<Rightarrow> (st', Some ErrObjectNotExist)
           | Some ob \<Rightarrow>
               (st'\<lparr>objects := (objects st)(obj \<mapsto> ob\<lparr>obj_project := Some proj\<rparr>)\<rparr>, None)))"

definition Object_Attrs :: "digest \<Rightarrow> storage_faults \<Rightarrow> gcs \<Rightarrow> string \<Rightarrow> string + md5sum" where
  "Object_Attrs md5 sf st obj =
     (case attrs_fault sf obj of
        Some e \<Rightarrow> Inl e
      | None \<Rightarrow>
          (case objects st obj of
             None \<Rightarrow> Inl ErrObjectNotExist
           | Some ob \<Rightarrow> Inr (md5 (obj_bytes ob))))"

section \<open>The upload server (server.go)\<close>

text \<open>
  An error of the server is the place that made it, with the values its message is
  formatted from.
\<close>

datatype srv_error =
    BaseRequirementsUnmet
  | ChecksumFailure string string
  | CopyFailed string string string
  | SetMetaFailed FileRequest_Project string
  | NotImplemented string

record rvServer =
  bucket :: string
  sc :: storage_faults

definition setProjectMeta ::
  "rvServer \<Rightarrow> gcs \<Rightarrow> string \<Rightarrow> FileRequest_Project \<Rightarrow> gcs \<times> srv_error option" where
  "setProjectMeta r st obj proj =
     (case Object_Update (sc r) st obj proj of
        (st', Some e) \<Rightarrow> (st', Some (SetMetaFailed proj e))
      | (st', None) \<Rightarrow> (st', None))"

text \<open>
  \<^verbatim>\<open>defer wc.Close()\<close>: the writer is closed when \<open>fileStore\<close> returns, on both paths,
  and what \<^verbatim>\<open>Close\<close> returns is dropped.
\<close>

definition fileStore :: "rvServer \<Rightarrow> gcs \<Rightarrow> string \<Rightarrow> bytes \<Rightarrow> gcs \<times> srv_error option" where
  "fileStore r st fn b =
     (let (st1, wc) = NewWriter st fn;
          (wc', err) = io_Copy (sc r) wc b;
          (st2, closed) = Writer_Close (sc r) st1 wc'
      in case err of
           Some e \<Rightarrow> (st2, Some (CopyFailed (bucket r) fn e))
         | None \<Rightarrow> (st2, None))"

definition handleDataFile ::
  "rvServer \<Rightarrow> gcs \<Rightarrow> FileRequest_Project \<Rightarrow> FileResponse \<Rightarrow> string \<Rightarrow> bytes \<Rightarrow>
     gcs \<times> FileResponse option \<times> srv_error option" where
  "handleDataFile r st proj resp fn c =
     (case fileStore r st fn c of
        (st1, Some e) \<Rightarrow> (st1, Some (resp\<lparr>Status := FAIL\<rparr>), Some e)
      | (st1, None) \<Rightarrow>
          (case setProjectMeta r st1 fn proj of
             (st2, Some e) \<Rightarrow> (st2, Some (resp\<lparr>Status := FAIL\<rparr>), Some e)
           | (st2, None) \<Rightarrow> (st2, Some (resp\<lparr>Status := SUCCESS\<rparr>), None)))"

definition FileUpload ::
  "digest \<Rightarrow> rvServer \<Rightarrow> gcs \<Rightarrow> FileRequest \<Rightarrow> gcs \<times> FileResponse option \<times> srv_error option" where
  "FileUpload md5 r st req =
     (let resp = \<lparr>Status = STATUS_UNSET\<rparr>;
          fn = Filename req;
          content = Content req;
          proj = Project req;
          sum = Md5Sum req
      in if length content < 1 \<or> proj = UNKNOWN \<or> length fn < 1
         then (st, None, Some BaseRequirementsUnmet)
         else
           let tsString = hexsum md5 content
           in if tsString \<noteq> sum
              then (st, None, Some (ChecksumFailure sum tsString))
              else if proj = ROUTEVIEWS then handleDataFile r st ROUTEVIEWS resp fn content
              else if proj = RIPE_RIS then (st, None, Some (NotImplemented (Filename req)))
              else if proj = RPKI_RARC then handleDataFile r st RPKI_RARC resp fn content
              else (st, None, Some (NotImplemented (Filename req))))"

section \<open>The remote tree and its walker\<close>

text \<open>
  The FTP site as \<^verbatim>\<open>ftpWalk\<close> sees it: every entry of a listing has a name and a type;
  for a folder, \<open>r_err\<close> is the error of \<^verbatim>\<open>LIST\<close> on it, if it fails, and \<open>r_children\<close>
  is what the listing returns otherwise.
\<close>

datatype EntryType = EntryTypeFile | EntryTypeFolder | EntryTypeLink

datatype remote =
  Remote (r_name: string) (r_type: EntryType) (r_err: "string option") (r_children: "remote list")

record Entry =
  Name :: string
  Type :: EntryType

text \<open>
  \<^verbatim>\<open>strings.TrimLeft(s, cutset)\<close>, \<^verbatim>\<open>strings.HasPrefix\<close>, \<^verbatim>\<open>strings.HasSuffix\<close> and
  \<^verbatim>\<open>strings.Contains\<close>; the last three are \<^const>\<open>prefix\<close>, \<^const>\<open>suffix\<close> and
  \<^const>\<open>sublist\<close> with the arguments swapped.
\<close>

definition TrimLeft :: "string \<Rightarrow> string \<Rightarrow> string" where
  "TrimLeft s cutset = dropWhile (\<lambda>x. x \<in> set cutset) s"

definition HasPrefix :: "string \<Rightarrow> string \<Rightarrow> bool" where
  "HasPrefix s p = prefix p s"

definition HasSuffix :: "string \<Rightarrow> string \<Rightarrow> bool" where
  "HasSuffix s p = suffix p s"

definition Contains :: "string \<Rightarrow> string \<Rightarrow> bool" where
  "Contains s substr = sublist substr s"

text \<open>
  \<^verbatim>\<open>path.Join(a, b)\<close> of the standard library: the non-empty elements joined by a slash,
  then cleaned (no double slash, no \<^verbatim>\<open>.\<close> element, \<^verbatim>\<open>..\<close> taken with the element
  before it, no trailing slash but for the root).
\<close>

fun split_slash :: "string \<Rightarrow> string list" where
  "split_slash [] = [[]]"
| "split_slash (x # xs) =
     (if x = CHR ''/'' then [] # split_slash xs
      else (case split_slash xs of [] \<Rightarrow> [[x]] | y # ys \<Rightarrow> (x # y) # ys))"

fun clean_elems :: "bool \<Rightarrow> string list \<Rightarrow> string list \<Rightarrow> string list" where
  "clean_elems rooted acc [] = rev acc"
| "clean_elems rooted acc (e # es) =
     (if e = [] \<or> e = ''.'' then clean_elems rooted acc es
      else if e = ''..'' then
        (case acc of
           [] \<Rightarrow> clean_elems rooted (if rooted then [] else [e]) es
         | a # acc' \<Rightarrow>
             if a = ''..'' then clean_elems rooted (e # acc) es
             else clean_elems rooted acc' es)
      else clean_elems rooted (e # acc) es)"

fun join_slash :: "string list \<Rightarrow> string" where
  "join_slash [] = []"
| "join_slash [e] = e"
| "join_slash (e # es) = e @ ''/'' @ join_slash es"

definition Clean :: "string \<Rightarrow> string" where
  "Clean p =
     (let rooted = HasPrefix p ''/'';
          out = (if rooted then ''/'' else []) @ join_slash (clean_elems rooted [] (split_slash p))
      in if out = [] then ''.'' else out)"

definition path_Join :: "string \<Rightarrow> string \<Rightarrow> string" where
  "path_Join a b =
     (if a = [] \<and> b = [] then []
      else if a = [] then Clean b
      else if b = [] then Clean a
      else Clean (a @ ''/'' @ b))"

text \<open>
  The walker of the FTP library (\<^verbatim>\<open>Walk\<close>, \<^verbatim>\<open>Next\<close>, \<^verbatim>\<open>Stat\<close>, \<^verbatim>\<open>Path\<close>, \<^verbatim>\<open>Err\<close>,
  \<^verbatim>\<open>SkipDir\<close>), as the library defines it. An item of its stack carries the remote node
  it stands for, which answers the \<^verbatim>\<open>LIST\<close> that \<^verbatim>\<open>Next\<close> sends for the item's path.
  \<^verbatim>\<open>Next\<close> lists the current entry when it is a folder and \<open>descend\<close> is set, pushes
  the entries other than \<^verbatim>\<open>.\<close> and \<^verbatim>\<open>..\<close>, and moves to the entry on top of the stack;
  it returns false when the listing fails or the stack is empty. \<open>descend\<close> is set again
  by every successful \<^verbatim>\<open>Next\<close>, and only \<^verbatim>\<open>SkipDir\<close> clears it.
\<close>

record item =
  i_path :: string
  i_node :: remote
  i_err :: "string option"

record Walker =
  serverConn :: remote
  root :: string
  cur :: "item option"
  stack :: "item list"
  descend :: bool

definition Walk :: "remote \<Rightarrow> string \<Rightarrow> Walker" where
  "Walk srv dir =
     \<lparr>serverConn = srv,
      root = (if HasSuffix dir ''/'' then dir else dir @ ''/''),
      cur = None, stack = [], descend = True\<rparr>"

definition current :: "Walker \<Rightarrow> item" where
  "current w =
     (case cur w of
        None \<Rightarrow>
          \<lparr>i_path = root w,
           i_node = Remote [] EntryTypeFolder (r_err (serverConn w)) (r_children (serverConn w)),
           i_err = None\<rparr>
      | Some c \<Rightarrow> c)"

text \<open>
  \<open>pushed c\<close> is what \<^verbatim>\<open>Next\<close> appends to the stack for the listing of \<open>c\<close>, and
  \<open>advance\<close> is the end of \<^verbatim>\<open>Next\<close>: the move to the item on top of the stack.
\<close>

definition pushed :: "item \<Rightarrow> item list" where
  "pushed c =
     map (\<lambda>n. \<lparr>i_path = path_Join (i_path c) (r_name n), i_node = n, i_err = None\<rparr>)
       (filter (\<lambda>n. \<not> (r_name n = ''.'' \<or> r_name n = ''..'')) (r_children (i_node c)))"

definition advance :: "Walker \<Rightarrow> bool \<times> Walker" where
  "advance w =
     (if stack w = [] then (False, w)
      else (True, w\<lparr>cur := Some (last (stack w)), stack := butlast (stack w), descend := True\<rparr>))"

definition Next :: "Walker \<Rightarrow> bool \<times> Walker" where
  "Next w0 =
     (let c = current w0; w = w0\<lparr>cur := Some c\<rparr>
      in if descend w \<and> r_type (i_node c) = EntryTypeFolder then
           (case r_err (i_node c) of
              Some e \<Rightarrow> (False, w\<lparr>cur := Some (c\<lparr>i_err := Some e\<rparr>)\<rparr>)
            | None \<Rightarrow> advance (w\<lparr>stack := stack w @ pushed c\<rparr>))
         else advance w)"

definition SkipDir :: "Walker \<Rightarrow> Walker" where
  "SkipDir w = w\<lparr>descend := False\<rparr>"

definition Err :: "Walker \<Rightarrow> string option" where
  "Err w = i_err (current w)"

definition Stat :: "Walker \<Rightarrow> Entry" where
  "Stat w = \<lparr>Name = r_name (i_node (current w)), Type = r_type (i_node (current w))\<rparr>"

definition Path :: "Walker \<Rightarrow> string" where
  "Path w = i_path (current w)"

fun weight :: "remote \<Rightarrow> nat" where
  "weight (Remote n t e cs) = Suc (sum_list (map weight cs))"

definition todo :: "Walker \<Rightarrow> nat" where
  "todo w =
     sum_list (map (\<lambda>i. weight (i_node i)) (stack w)) +
     (if descend w \<and> r_type (i_node (current w)) = EntryTypeFolder
      then weight (i_node (current w)) else 1)"

text \<open>\<^verbatim>\<open>Next\<close> leaves less to walk: this is why the loop of \<^verbatim>\<open>ftpWalk\<close> ends.\<close>

lemma weight_pos: "0 < weight n"
  by (cases n) simp

lemma weight_filter_le: "sum_list (map weight (filter P cs)) \<le> sum_list (map weight cs)"
  by (induction cs) auto

lemma pushed_weight:
  "sum_list (map (\<lambda>i. weight (i_node i)) (pushed c)) < weight (i_node c)"
proof (cases "i_node c")
  case (Remote n t e cs)
  have "sum_list (map (\<lambda>i. weight (i_node i)) (pushed c)) =
        sum_list (map weight (filter (\<lambda>n. \<not> (r_name n = ''.'' \<or> r_name n = ''..'')) cs))"
    by (simp add: pushed_def Remote comp_def)
  also have "\<dots> \<le> sum_list (map weight cs)"
    by (rule weight_filter_le)
  finally show ?thesis
    by (simp add: Remote)
qed

lemma advance_todo:
  assumes "advance w = (True, w')"
  shows "todo w' \<le> sum_list (map (\<lambda>i. weight (i_node i)) (stack w))"
proof -
  from assms have ne: "stack w \<noteq> []"
    by (auto simp: advance_def split: if_splits)
  then obtain xs x where sx: "stack w = xs @ [x]"
    by (metis rev_exhaust)
  from assms ne
  have w': "w' = w\<lparr>cur := Some (last (stack w)), stack := butlast (stack w), descend := True\<rparr>"
    by (auto simp: advance_def)
  have "0 < weight (i_node x)"
    by (rule weight_pos)
  then show ?thesis
    by (auto simp: w' sx todo_def current_def)
qed

lemma Next_todo:
  assumes a: "Next w = (True, w')"
  shows "todo w' < todo w"
proof (cases "descend w \<and> r_type (i_node (current w)) = EntryTypeFolder")
  case True
  with a have adv:
    "advance (w\<lparr>cur := Some (current w), stack := stack w @ pushed (current w)\<rparr>) = (True, w')"
    by (auto simp: Next_def Let_def split: option.splits)
  from advance_todo [OF adv] pushed_weight [of "current w"] True show ?thesis
    by (simp add: todo_def)
next
  case False
  with a have adv: "advance (w\<lparr>cur := Some (current w)\<rparr>) = (True, w')"
    by (auto simp: Next_def Let_def)
  from advance_todo [OF adv] False show ?thesis
    by (auto simp: todo_def)
qed

section \<open>The mirroring client (mass\_upload.go)\<close>

record evalFile =
  name :: string
  chksum :: string

text \<open>
  \<open>ftpWalk_loop\<close> is the \<^verbatim>\<open>for w.Next()\<close> loop; its second argument is what has been
  sent on the channel so far. \<open>ftpWalk\<close> returns the descriptors sent and whether the
  channel is closed when the function returns: \<^verbatim>\<open>close(c.ch)\<close> stands in the branch
  \<^verbatim>\<open>w.Err() != nil\<close> and nowhere else.
\<close>

function ftpWalk_loop :: "Walker \<Rightarrow> evalFile list \<Rightarrow> Walker \<times> evalFile list" where
  "ftpWalk_loop w ch =
     (let (more, w') = Next w
      in if \<not> more then (w', ch)
         else
           let e = Stat w'
           in if Type e = EntryTypeFolder \<and> HasSuffix (Path w') ''RIBS'' then ftpWalk_loop w' ch
              else if Type e = EntryTypeFile \<and> HasPrefix (Name e) ''updates''
              then ftpWalk_loop w' (ch @ [\<lparr>name = TrimLeft (Path w') ''/'', chksum = []\<rparr>])
              else ftpWalk_loop w' ch)"
  by pat_completeness auto
termination
  by (relation "measure (\<lambda>(w, ch). todo w)") (auto dest: Next_todo [OF sym])

declare ftpWalk_loop.simps [simp del]

definition ftpWalk :: "remote \<Rightarrow> string \<Rightarrow> evalFile list \<times> bool" where
  "ftpWalk srv dir =
     (let (w, ch) = ftpWalk_loop (Walk srv dir) []
      in if Err w \<noteq> None then (ch, True) else (ch, False))"

text \<open>
  What \<^verbatim>\<open>RETR\<close> of a path gives: the command fails, or it opens a data stream from which
  \<^verbatim>\<open>ioutil.ReadAll\<close> returns the bytes read and the error that ended the read, if any.
\<close>

datatype retr = RetrFailed string | RetrStream bytes "string option"

text \<open>
  The client: the upload service it calls (\<open>gClient\<close>, with \<open>rpc_fault\<close> for a call that
  fails in transport and never reaches the server), the bucket handle \<open>bh\<close> (how its
  queries fail) and the FTP connection \<open>fc\<close>. The server and the client are taken to be
  configured with the same bucket. What a run changes is kept apart, in \<open>run\<close>: the bucket,
  the metrics, and the requests handed to \<^verbatim>\<open>gClient.FileUpload\<close>, oldest first.
\<close>

record client =
  gClient :: rvServer
  rpc_fault :: "string \<Rightarrow> string option"
  bh :: storage_faults
  fc :: "string \<Rightarrow> retr"

record run =
  store :: gcs
  metrics :: "string \<rightharpoonup> int"
  requests :: "FileRequest list"

definition maxFTPErrs :: nat where
  "maxFTPErrs = 50"

definition new_metrics :: "string \<rightharpoonup> int" where
  "new_metrics = [''sync'' \<mapsto> 0, ''skip'' \<mapsto> 0, ''error'' \<mapsto> 0]"

definition incr :: "(string \<rightharpoonup> int) \<Rightarrow> string \<Rightarrow> (string \<rightharpoonup> int)" where
  "incr m k = m(k \<mapsto> (case m k of None \<Rightarrow> 0 | Some v \<Rightarrow> v) + 1)"

definition getMD5cloud :: "digest \<Rightarrow> client \<Rightarrow> gcs \<Rightarrow> string \<Rightarrow> string \<times> string option" where
  "getMD5cloud md5 c st path =
     (case Object_Attrs md5 (bh c) st path of
        Inl e \<Rightarrow> ([], Some (''failed to get attrs for obj: '' @ e))
      | Inr s \<Rightarrow> (EncodeToString (sum_bytes s), None))"

definition getMD5ftp :: "digest \<Rightarrow> client \<Rightarrow> string \<Rightarrow> string \<times> bytes \<times> string option" where
  "getMD5ftp md5 c path =
     (case fc c path of
        RetrFailed e \<Rightarrow> ([], [], Some (''failed to RETR the path: '' @ e))
      | RetrStream buf err \<Rightarrow> (hexsum md5 buf, buf, None))"

datatype rpc_error = Transport string | Handler srv_error

definition gClient_FileUpload ::
  "digest \<Rightarrow> client \<Rightarrow> gcs \<Rightarrow> FileRequest \<Rightarrow> gcs \<times> FileResponse option \<times> rpc_error option" where
  "gClient_FileUpload md5 c st req =
     (case rpc_fault c (Filename req) of
        Some e \<Rightarrow> (st, None, Some (Transport e))
      | None \<Rightarrow>
          (case FileUpload md5 (gClient c) st req of
             (st', resp, Some e) \<Rightarrow> (st', None, Some (Handler e))
           | (st', resp, None) \<Rightarrow> (st', resp, None)))"

text \<open>
  How \<^verbatim>\<open>readChannel\<close> ends: the channel was closed and the loop left by \<^verbatim>\<open>break\<close>; an
  upload failed and the function returned; \<^verbatim>\<open>glog.Fatalf\<close> ended the process (with the
  file it names); or the receive \<^verbatim>\<open><-c.ch\<close> waits on a channel that nobody will send on
  or close.
\<close>

datatype ending = ChannelClosed | UploadFailed | FatalCloud string | FatalFtp string | Blocked

datatype step = Continue nat run | Stop ending run

text \<open>One pass of the loop body for a descriptor received, with the local \<open>errs\<close>.\<close>

definition readChannel_body :: "digest \<Rightarrow> client \<Rightarrow> nat \<Rightarrow> run \<Rightarrow> evalFile \<Rightarrow> step" where
  "readChannel_body md5 c errs s ef =
     (let fn = TrimLeft (name ef) ''/'';
          (csSum0, err) = getMD5cloud md5 c (store s) fn;
          fatal = (case err of None \<Rightarrow> False | Some e \<Rightarrow> \<not> Contains e ''object doesn't exist'');
          csSum = (case err of None \<Rightarrow> csSum0 | Some e \<Rightarrow> [])
      in if fatal then Stop (FatalCloud fn) s
         else
           let (fSum, content, err) = getMD5ftp md5 c (name ef)
           in if err \<noteq> None then
                (if errs < maxFTPErrs then Continue (errs + 1) s
                 else Stop (FatalFtp (name ef)) s)
              else if csSum = fSum then Continue errs (s\<lparr>metrics := incr (metrics s) ''skip''\<rparr>)
              else
                let req = \<lparr>Filename = name ef, Content = content, Md5Sum = fSum,
                           Project = ROUTEVIEWS\<rparr>;
                    (st', resp, err) = gClient_FileUpload md5 c (store s) req;
                    s' = s\<lparr>store := st', requests := requests s @ [req]\<rparr>
                in if err \<noteq> None
                   then Stop UploadFailed (s'\<lparr>metrics := incr (metrics s') ''error''\<rparr>)
                   else Continue errs (s'\<lparr>metrics := incr (metrics s') ''sync''\<rparr>))"

text \<open>
  The loop over the descriptors that arrive on the channel, in order. \<open>readChannel_steps\<close>
  runs the body over them until one pass stops the loop. \<open>readChannel\<close> starts with
  \<open>errs = 0\<close>; once everything sent has been received, the next receive returns
  \<^verbatim>\<open>nil\<close> if the channel is closed and waits for ever otherwise.
\<close>

fun readChannel_steps :: "digest \<Rightarrow> client \<Rightarrow> nat \<Rightarrow> run \<Rightarrow> evalFile list \<Rightarrow> step" where
  "readChannel_steps md5 c errs s [] = Continue errs s"
| "readChannel_steps md5 c errs s (ef # efs) =
     (case readChannel_body md5 c errs s ef of
        Continue errs' s' \<Rightarrow> readChannel_steps md5 c errs' s' efs
      | Stop e s' \<Rightarrow> Stop e s')"

definition readChannel :: "digest \<Rightarrow> client \<Rightarrow> run \<Rightarrow> evalFile list \<times> bool \<Rightarrow> ending \<times> run" where
  "readChannel md5 c s ch =
     (case readChannel_steps md5 c 0 s (fst ch) of
        Continue errs s' \<Rightarrow> (if snd ch then (ChannelClosed, s') else (Blocked, s'))
      | Stop e s' \<Rightarrow> (e, s'))"

text \<open>
  \<^verbatim>\<open>main\<close>, from the start of the walk on: the walker and the reader share only the
  channel, so what the reader receives is what the walker sends.
\<close>

definition pipeline :: "digest \<Rightarrow> client \<Rightarrow> remote \<Rightarrow> string \<Rightarrow> gcs \<Rightarrow> ending \<times> run" where
  "pipeline md5 c srv dir st =
     readChannel md5 c \<lparr>store = st, metrics = new_metrics, requests = []\<rparr> (ftpWalk srv dir)"


definition retr_fails :: "digest \<Rightarrow> client \<Rightarrow> evalFile \<Rightarrow> bool" where
  "retr_fails md5 c ef =
     (case snd (snd (getMD5ftp md5 c (name ef))) of None \<Rightarrow> False | Some e \<Rightarrow> True)"

definition failures :: "digest \<Rightarrow> client \<Rightarrow> evalFile list \<Rightarrow> nat" where
  "failures md5 c efs = length (filter (retr_fails md5 c) efs)"

fun step_run :: "step \<Rightarrow> run" where
  "step_run (Continue errs s) = s"
| "step_run (Stop e s) = s"

text \<open>
  A site is \<open>healthy\<close> when no listing in it fails; a walker is \<open>sound\<close> when it has
  recorded no error and everything it still holds is healthy.
\<close>

fun healthy :: "remote \<Rightarrow> bool" where
  "healthy (Remote n t e cs) = (e = None \<and> (\<forall>c \<in> set cs. healthy c))"

definition sound :: "Walker \<Rightarrow> bool" where
  "sound w =
     (i_err (current w) = None \<and> healthy (i_node (current w)) \<and>
      (\<forall>i \<in> set (stack w). i_err i = None \<and> healthy (i_node i)))"

text \<open>
  The bucket is \<open>settled\<close> for a descriptor when it holds an object under the descriptor's
  name whose fingerprint is the one of the content that the site returns for it.
\<close>

definition settled :: "digest \<Rightarrow> client \<Rightarrow> gcs \<Rightarrow> evalFile \<Rightarrow> bool" where
  "settled md5 c st ef =
     (case fc c (name ef) of
        RetrFailed e \<Rightarrow> False
      | RetrStream buf rerr \<Rightarrow>
          (case objects st (name ef) of
             None \<Rightarrow> False
           | Some ob \<Rightarrow> hexsum md5 (obj_bytes ob) = hexsum md5 buf))"

section \<open>A small world to run the programs in\<close>

text \<open>
  \<open>toy_md5\<close> stands in for \<^verbatim>\<open>crypto/md5\<close> where a concrete run needs a digest: the runs
  below only need that the one-byte contents \<open>X\<close> and \<open>Y\<close> get different sums.
\<close>

definition toy_md5 :: digest where
  "toy_md5 b = foldl (\<lambda>h x. 31 * h + ucast x) 7 b"

definition no_faults :: storage_faults where
  "no_faults = \<lparr>attrs_fault = (\<lambda>k. None), copy_fault = (\<lambda>k. None),
                close_fault = (\<lambda>k. None), update_fault = (\<lambda>k. None)\<rparr>"

definition close_fails :: storage_faults where
  "close_fails = \<lparr>attrs_fault = (\<lambda>k. None), copy_fault = (\<lambda>k. None),
                  close_fault = (\<lambda>k. Some ''connection reset by peer''),
                  update_fault = (\<lambda>k. None)\<rparr>"

definition empty_store :: gcs where
  "empty_store = \<lparr>objects = Map.empty, calls = []\<rparr>"

definition old_store :: gcs where
  "old_store =
     \<lparr>objects = [''a/updates.1'' \<mapsto> \<lparr>obj_bytes = [89], obj_project = Some ROUTEVIEWS\<rparr>],
      calls = []\<rparr>"

definition good_request :: FileRequest where
  "good_request =
     \<lparr>Filename = ''a/updates.1'', Content = [88],
      Md5Sum = ''00000000000000000000000000000131'', Project = ROUTEVIEWS\<rparr>"

definition site_fc :: "string \<Rightarrow> retr" where
  "site_fc path =
     (if path = ''a/updates.1'' then RetrStream [88] None
      else if path = ''a/updates.2'' then RetrStream [88] (Some ''unexpected EOF'')
      else RetrFailed ''550 no such file'')"

definition site_client :: "storage_faults \<Rightarrow> client" where
  "site_client sf =
     \<lparr>gClient = \<lparr>bucket = ''routeviews-archives'', sc = sf\<rparr>, rpc_fault = (\<lambda>k. None),
      bh = no_faults, fc = site_fc\<rparr>"

definition fresh :: "gcs \<Rightarrow> run" where
  "fresh st = \<lparr>store = st, metrics = new_metrics, requests = []\<rparr>"

definition site_tree :: remote where
  "site_tree =
     Remote [] EntryTypeFolder None
       [Remote ''a'' EntryTypeFolder None
          [Remote ''updates.1'' EntryTypeFile None [],
           Remote ''RIBS'' EntryTypeFolder None
             [Remote ''updates.9'' EntryTypeFile None [],
              Remote ''full.1'' EntryTypeFile None []],
           Remote ''other.txt'' EntryTypeFile None []]]"

definition small_tree :: remote where
  "small_tree =
     Remote [] EntryTypeFolder None
       [Remote ''a'' EntryTypeFolder None [Remote ''updates.1'' EntryTypeFile None []]]"

definition broken_tree :: remote where
  "broken_tree =
     Remote [] EntryTypeFolder None
       [Remote ''b'' EntryTypeFolder (Some ''425 cannot open data connection'') [],
        Remote ''a'' EntryTypeFolder None [Remote ''updates.1'' EntryTypeFile None []]]"

definition synced_store :: gcs where
  "synced_store =
     \<lparr>objects = [''a/updates.1'' \<mapsto> \<lparr>obj_bytes = [88], obj_project = Some ROUTEVIEWS\<rparr>],
      calls = []\<rparr>"

section \<open>Facts about fingerprints\<close>

lemma sum_bytes_length: "length (sum_bytes s) = 16"
  by (simp add: sum_bytes_def)

lemma EncodeToString_length: "length (EncodeToString b) = 2 * length b"
  by (induction b) simp_all

lemma hexsum_length: "length (hexsum md5 b) = 32"
  by (simp add: hexsum_def EncodeToString_length sum_bytes_length)

lemma hexsum_toy_X: "hexsum toy_md5 [88] = ''00000000000000000000000000000131''"
  by code_simp

lemma hexsum_toy_Y: "hexsum toy_md5 [89] = ''00000000000000000000000000000132''"
  by code_simp

section \<open>The upload server\<close>

text \<open>
  C9. A request with empty content, with project UNKNOWN or with an empty filename is
  turned down at once: the call returns no response and the error of the first check,
  whatever the digest function and the digest sent are (the digest is not looked at), and
  the store is as it was, its list of calls included.
\<close>

theorem FileUpload_malformed:
  assumes "Content req = [] \<or> Project req = UNKNOWN \<or> Filename req = []"
  shows "FileUpload md5 r st req = (st, None, Some BaseRequirementsUnmet)"
  using assms by (auto simp: FileUpload_def Let_def)

theorem FileUpload_malformed_witness:
  "(Content (good_request\<lparr>Content := []\<rparr>) = [] \<or>
    Project (good_request\<lparr>Content := []\<rparr>) = UNKNOWN \<or>
    Filename (good_request\<lparr>Content := []\<rparr>) = []) \<and>
   FileUpload toy_md5 \<lparr>bucket = ''routeviews-archives'', sc = no_faults\<rparr> old_store
     (good_request\<lparr>Content := []\<rparr>) = (old_store, None, Some BaseRequirementsUnmet) \<and>
   FileUpload toy_md5 \<lparr>bucket = ''routeviews-archives'', sc = no_faults\<rparr> old_store
     (good_request\<lparr>Project := UNKNOWN\<rparr>) = (old_store, None, Some BaseRequirementsUnmet) \<and>
   FileUpload toy_md5 \<lparr>bucket = ''routeviews-archives'', sc = no_faults\<rparr> old_store
     (good_request\<lparr>Filename := [], Md5Sum := ''wrong''\<rparr>) =
     (old_store, None, Some BaseRequirementsUnmet)"
  using
    FileUpload_malformed [of "good_request\<lparr>Content := []\<rparr>" toy_md5
      "\<lparr>bucket = ''routeviews-archives'', sc = no_faults\<rparr>" old_store]
    FileUpload_malformed [of "good_request\<lparr>Project := UNKNOWN\<rparr>" toy_md5
      "\<lparr>bucket = ''routeviews-archives'', sc = no_faults\<rparr>" old_store]
    FileUpload_malformed [of "good_request\<lparr>Filename := [], Md5Sum := ''wrong''\<rparr>" toy_md5
      "\<lparr>bucket = ''routeviews-archives'', sc = no_faults\<rparr>" old_store]
  by (simp add: good_request_def)

text \<open>
  C2. When the digest of a request is not the hexadecimal fingerprint that the server
  computes over the content, the call returns no response and an error (the one of the
  field check if that fails first, the checksum failure otherwise), and the store is as it
  was: no writer was opened and no metadata update sent.
\<close>

theorem FileUpload_mismatch:
  assumes "Md5Sum req \<noteq> hexsum md5 (Content req)"
  shows "FileUpload md5 r st req =
    (st, None,
     Some (if length (Content req) < 1 \<or> Project req = UNKNOWN \<or> length (Filename req) < 1
           then BaseRequirementsUnmet
           else ChecksumFailure (Md5Sum req) (hexsum md5 (Content req))))"
  using assms by (auto simp: FileUpload_def Let_def)

theorem FileUpload_mismatch_witness:
  "Md5Sum (good_request\<lparr>Md5Sum := ''00000000000000000000000000000132''\<rparr>) \<noteq>
     hexsum toy_md5 (Content (good_request\<lparr>Md5Sum := ''00000000000000000000000000000132''\<rparr>)) \<and>
   FileUpload toy_md5 \<lparr>bucket = ''routeviews-archives'', sc = no_faults\<rparr> old_store
     (good_request\<lparr>Md5Sum := ''00000000000000000000000000000132''\<rparr>) =
   (old_store, None,
    Some (ChecksumFailure ''00000000000000000000000000000132''
            ''00000000000000000000000000000131''))"
proof -
  have h: "Md5Sum (good_request\<lparr>Md5Sum := ''00000000000000000000000000000132''\<rparr>) \<noteq>
     hexsum toy_md5 (Content (good_request\<lparr>Md5Sum := ''00000000000000000000000000000132''\<rparr>))"
    by (simp add: good_request_def hexsum_toy_X)
  from h FileUpload_mismatch [OF h, of "\<lparr>bucket = ''routeviews-archives'', sc = no_faults\<rparr>" old_store]
  show ?thesis
    by (simp add: good_request_def hexsum_toy_X)
qed

text \<open>
  C8. A request that passes the field check and the digest check and carries the project
  RIPE_RIS gets no response and the error "not Implemented storing" for its filename; the
  store is as it was.
\<close>

theorem FileUpload_RIPE_RIS:
  assumes "Content req \<noteq> []" and "Filename req \<noteq> []"
    and "Md5Sum req = hexsum md5 (Content req)" and "Project req = RIPE_RIS"
  shows "FileUpload md5 r st req = (st, None, Some (NotImplemented (Filename req)))"
  using assms by (auto simp: FileUpload_def Let_def)

theorem FileUpload_RIPE_RIS_witness:
  "Content (good_request\<lparr>Project := RIPE_RIS\<rparr>) \<noteq> [] \<and>
   Filename (good_request\<lparr>Project := RIPE_RIS\<rparr>) \<noteq> [] \<and>
   Md5Sum (good_request\<lparr>Project := RIPE_RIS\<rparr>) =
     hexsum toy_md5 (Content (good_request\<lparr>Project := RIPE_RIS\<rparr>)) \<and>
   Project (good_request\<lparr>Project := RIPE_RIS\<rparr>) = RIPE_RIS \<and>
   FileUpload toy_md5 \<lparr>bucket = ''routeviews-archives'', sc = no_faults\<rparr> old_store
     (good_request\<lparr>Project := RIPE_RIS\<rparr>) =
   (old_store, None, Some (NotImplemented ''a/updates.1''))"
proof -
  have h1: "Content (good_request\<lparr>Project := RIPE_RIS\<rparr>) \<noteq> []"
    and h2: "Filename (good_request\<lparr>Project := RIPE_RIS\<rparr>) \<noteq> []"
    and h3: "Md5Sum (good_request\<lparr>Project := RIPE_RIS\<rparr>) =
       hexsum toy_md5 (Content (good_request\<lparr>Project := RIPE_RIS\<rparr>))"
    and h4: "Project (good_request\<lparr>Project := RIPE_RIS\<rparr>) = RIPE_RIS"
    by (simp_all add: good_request_def hexsum_toy_X)
  from FileUpload_RIPE_RIS [OF h1 h2 h3 h4, of "\<lparr>bucket = ''routeviews-archives'', sc = no_faults\<rparr>" old_store]
    h1 h2 h3 h4
  show ?thesis
    by (simp add: good_request_def)
qed

lemma fileStore_copied:
  assumes "copy_fault (sc r) fn = None"
  shows "fileStore r st fn b =
     (fst (Writer_Close (sc r) (st\<lparr>calls := calls st @ [OpenWriter fn]\<rparr>)
            \<lparr>w_name = fn, w_buf = b, w_err = None\<rparr>), None)"
  using assms by (simp add: fileStore_def NewWriter_def io_Copy_def split: prod.splits)

text \<open>
  C10. Whenever the copy into the writer succeeds, \<open>fileStore\<close> returns no error, whatever
  the closing of the writer reports. So for a valid request for ROUTEVIEWS or RPKI_RARC
  whose object exists already, when the copy succeeds, the close fails and the metadata
  update succeeds, \<open>FileUpload\<close> answers SUCCESS with no error although nothing was
  committed: the object keeps its old bytes, with the project set.
\<close>

theorem fileStore_drops_close_error:
  "(copy_fault (sc r) fn = None \<longrightarrow> snd (fileStore r st fn b) = None) \<and>
   (Content req \<noteq> [] \<and> Filename req \<noteq> [] \<and> Md5Sum req = hexsum md5 (Content req) \<and>
    (Project req = ROUTEVIEWS \<or> Project req = RPKI_RARC) \<and>
    copy_fault (sc r) (Filename req) = None \<and> close_fault (sc r) (Filename req) = Some e \<and>
    update_fault (sc r) (Filename req) = None \<and> objects st (Filename req) = Some ob \<longrightarrow>
    FileUpload md5 r st req =
      (\<lparr>objects = (objects st)(Filename req \<mapsto> ob\<lparr>obj_project := Some (Project req)\<rparr>),
        calls = calls st @ [OpenWriter (Filename req), UpdateMeta (Filename req) (Project req)]\<rparr>,
       Some \<lparr>Status = SUCCESS\<rparr>, None))"
proof (intro conjI impI)
  assume "copy_fault (sc r) fn = None"
  then show "snd (fileStore r st fn b) = None"
    by (simp add: fileStore_copied)
next
  assume a: "Content req \<noteq> [] \<and> Filename req \<noteq> [] \<and> Md5Sum req = hexsum md5 (Content req) \<and>
    (Project req = ROUTEVIEWS \<or> Project req = RPKI_RARC) \<and>
    copy_fault (sc r) (Filename req) = None \<and> close_fault (sc r) (Filename req) = Some e \<and>
    update_fault (sc r) (Filename req) = None \<and> objects st (Filename req) = Some ob"
  then have fs: "fileStore r st (Filename req) (Content req) =
      (st\<lparr>calls := calls st @ [OpenWriter (Filename req)]\<rparr>, None)"
    by (simp add: fileStore_copied Writer_Close_def)
  have sp: "setProjectMeta r (st\<lparr>calls := calls st @ [OpenWriter (Filename req)]\<rparr>)
              (Filename req) p =
     (\<lparr>objects = (objects st)(Filename req \<mapsto> ob\<lparr>obj_project := Some p\<rparr>),
        calls = calls st @ [OpenWriter (Filename req), UpdateMeta (Filename req) p]\<rparr>, None)" for p
    using a by (simp add: setProjectMeta_def Object_Update_def Let_def)
  from a fs sp show "FileUpload md5 r st req =
      (\<lparr>objects = (objects st)(Filename req \<mapsto> ob\<lparr>obj_project := Some (Project req)\<rparr>),
        calls = calls st @ [OpenWriter (Filename req), UpdateMeta (Filename req) (Project req)]\<rparr>,
       Some \<lparr>Status = SUCCESS\<rparr>, None)"
    by (auto simp: FileUpload_def handleDataFile_def Let_def)
qed

theorem fileStore_drops_close_error_witness:
  "close_fault close_fails ''a/updates.1'' = Some ''connection reset by peer'' \<and>
   snd (fileStore \<lparr>bucket = ''routeviews-archives'', sc = close_fails\<rparr> old_store
          ''a/updates.1'' [88]) = None \<and>
   FileUpload toy_md5 \<lparr>bucket = ''routeviews-archives'', sc = close_fails\<rparr> old_store
     good_request =
   (\<lparr>objects = [''a/updates.1'' \<mapsto> \<lparr>obj_bytes = [89], obj_project = Some ROUTEVIEWS\<rparr>],
     calls = [OpenWriter ''a/updates.1'', UpdateMeta ''a/updates.1'' ROUTEVIEWS]\<rparr>,
    Some \<lparr>Status = SUCCESS\<rparr>, None)"
  using fileStore_drops_close_error
    [of "\<lparr>bucket = ''routeviews-archives'', sc = close_fails\<rparr>" "''a/updates.1''" old_store
        "[88]" good_request toy_md5 "''connection reset by peer''"
        "\<lparr>obj_bytes = [89], obj_project = Some ROUTEVIEWS\<rparr>"]
  by (simp add: good_request_def close_fails_def old_store_def hexsum_toy_X)


section \<open>The walk of a healthy site\<close>

lemma healthy_children: "healthy n \<Longrightarrow> c \<in> set (r_children n) \<Longrightarrow> healthy c"
  by (cases n) auto

lemma healthy_no_err: "healthy n \<Longrightarrow> r_err n = None"
  by (cases n) auto

lemma pushed_sound:
  "healthy (i_node c) \<Longrightarrow> i \<in> set (pushed c) \<Longrightarrow> i_err i = None \<and> healthy (i_node i)"
  by (auto simp: pushed_def dest: healthy_children)

lemma advance_sound:
  assumes "\<forall>i \<in> set (stack w). i_err i = None \<and> healthy (i_node i)"
    and "i_err (current w) = None \<and> healthy (i_node (current w))"
    and "advance w = (b, w')"
  shows "sound w' \<and> Err w' = None"
proof (cases "stack w = []")
  case True
  with assms show ?thesis
    by (auto simp: advance_def sound_def Err_def)
next
  case False
  then obtain xs x where sx: "stack w = xs @ [x]"
    by (metis rev_exhaust)
  with assms show ?thesis
    by (auto simp: advance_def sound_def Err_def current_def)
qed

lemma Next_sound:
  assumes "sound w" and "Next w = (b, w')"
  shows "sound w' \<and> Err w' = None"
proof (cases "descend w \<and> r_type (i_node (current w)) = EntryTypeFolder")
  case True
  from assms(1) have ne: "r_err (i_node (current w)) = None"
    by (simp add: sound_def healthy_no_err)
  with True assms(2)
  have adv: "advance (w\<lparr>cur := Some (current w), stack := stack w @ pushed (current w)\<rparr>) = (b, w')"
    by (auto simp: Next_def Let_def)
  show ?thesis
  proof (rule advance_sound [OF _ _ adv])
    show "\<forall>i\<in>set (stack (w\<lparr>cur := Some (current w), stack := stack w @ pushed (current w)\<rparr>)).
       i_err i = None \<and> healthy (i_node i)"
      using assms(1) pushed_sound [of "current w"] by (auto simp: sound_def)
    show "i_err (current (w\<lparr>cur := Some (current w), stack := stack w @ pushed (current w)\<rparr>)) = None \<and>
          healthy (i_node (current (w\<lparr>cur := Some (current w), stack := stack w @ pushed (current w)\<rparr>)))"
      using assms(1) by (simp add: sound_def current_def)
  qed
next
  case False
  with assms(2) have adv: "advance (w\<lparr>cur := Some (current w)\<rparr>) = (b, w')"
    by (auto simp: Next_def Let_def)
  show ?thesis
  proof (rule advance_sound [OF _ _ adv])
    show "\<forall>i\<in>set (stack (w\<lparr>cur := Some (current w)\<rparr>)). i_err i = None \<and> healthy (i_node i)"
      using assms(1) by (auto simp: sound_def)
    show "i_err (current (w\<lparr>cur := Some (current w)\<rparr>)) = None \<and>
          healthy (i_node (current (w\<lparr>cur := Some (current w)\<rparr>)))"
      using assms(1) by (simp add: sound_def current_def)
  qed
qed

lemma ftpWalk_loop_sound: "sound w \<Longrightarrow> Err (fst (ftpWalk_loop w ch)) = None"
proof (induction w ch rule: ftpWalk_loop.induct)
  case (1 w ch)
  obtain more w' where n: "Next w = (more, w')"
    by (cases "Next w")
  from Next_sound [OF "1.prems" n] have s': "sound w'" and e': "Err w' = None"
    by simp_all
  show ?case
  proof (cases more)
    case False
    with n e' show ?thesis
      by (subst ftpWalk_loop.simps) simp
  next
    case True
    with n s' "1.IH" [OF n [symmetric]] show ?thesis
      by (subst ftpWalk_loop.simps) (auto simp: Let_def)
  qed
qed

lemma Walk_sound: "healthy srv \<Longrightarrow> sound (Walk srv dir)"
  by (cases srv) (auto simp: sound_def Walk_def current_def)

lemma healthy_site_never_closed: "healthy srv \<Longrightarrow> snd (ftpWalk srv dir) = False"
  using ftpWalk_loop_sound [OF Walk_sound, of srv dir "[]"]
  by (auto simp: ftpWalk_def split: prod.splits)

section \<open>The reader's loop\<close>










text \<open>
  C7. When the bucket query for a descriptor reports that the object does not exist (its
  error text contains "object doesn't exist"), the pass for that descriptor leaves the
  skip counter as it was, and when the retrieval returns content the pass hands a request
  to the upload service: the descriptor's name, the content read, its fingerprint and the
  project ROUTEVIEWS. The fingerprint of the content has 32 digits, so it never equals
  the empty destination fingerprint.
\<close>

theorem absent_never_skipped:
  assumes "getMD5cloud md5 c (store s) (TrimLeft (name ef) ''/'') = (cs, Some e)"
    and "Contains e ''object doesn't exist''"
  shows "metrics (step_run (readChannel_body md5 c errs s ef)) ''skip'' = metrics s ''skip'' \<and>
         (fc c (name ef) = RetrStream buf rerr \<longrightarrow>
            requests (step_run (readChannel_body md5 c errs s ef)) =
            requests s @ [\<lparr>Filename = name ef, Content = buf, Md5Sum = hexsum md5 buf,
                           Project = ROUTEVIEWS\<rparr>])"
proof (cases "fc c (name ef)")
  case (RetrFailed x)
  with assms show ?thesis
    by (simp add: readChannel_body_def getMD5ftp_def Let_def)
next
  case (RetrStream b r)
  obtain st' resp err where
    up: "gClient_FileUpload md5 c (store s)
           \<lparr>Filename = name ef, Content = b, Md5Sum = hexsum md5 b, Project = ROUTEVIEWS\<rparr> =
         (st', resp, err)"
    by (rule prod_cases3)
  have ne: "[] \<noteq> hexsum md5 b"
    using hexsum_length [of md5 b] by auto
  from assms RetrStream up ne show ?thesis
    by (auto simp: readChannel_body_def getMD5ftp_def Let_def incr_def)
qed

lemma absent_query:
  "getMD5cloud toy_md5 (site_client no_faults) (store (fresh empty_store))
     (TrimLeft (name \<lparr>name = ''a/updates.1'', chksum = []\<rparr>) ''/'') =
   ([], Some ''failed to get attrs for obj: storage: object doesn't exist'')"
  by code_simp

lemma absent_text:
  "Contains ''failed to get attrs for obj: storage: object doesn't exist'' ''object doesn't exist''"
  by code_simp

theorem absent_never_skipped_witness:
  "getMD5cloud toy_md5 (site_client no_faults) (store (fresh empty_store))
     (TrimLeft (name \<lparr>name = ''a/updates.1'', chksum = []\<rparr>) ''/'') =
   ([], Some ''failed to get attrs for obj: storage: object doesn't exist'') \<and>
   Contains ''failed to get attrs for obj: storage: object doesn't exist'' ''object doesn't exist'' \<and>
   fc (site_client no_faults) (name \<lparr>name = ''a/updates.1'', chksum = []\<rparr>) = RetrStream [88] None \<and>
   metrics (step_run (readChannel_body toy_md5 (site_client no_faults) 0 (fresh empty_store)
      \<lparr>name = ''a/updates.1'', chksum = []\<rparr>)) ''skip'' = Some 0 \<and>
   requests (step_run (readChannel_body toy_md5 (site_client no_faults) 0 (fresh empty_store)
      \<lparr>name = ''a/updates.1'', chksum = []\<rparr>)) =
     [\<lparr>Filename = ''a/updates.1'', Content = [88],
       Md5Sum = ''00000000000000000000000000000131'', Project = ROUTEVIEWS\<rparr>]"
proof -
  have r: "fc (site_client no_faults) (name \<lparr>name = ''a/updates.1'', chksum = []\<rparr>) =
           RetrStream [88] None"
    by (simp add: site_client_def site_fc_def)
  from absent_never_skipped [OF absent_query absent_text, of 0 "[88]" None] r absent_query absent_text
  show ?thesis
    by (simp add: fresh_def new_metrics_def hexsum_toy_X)
qed

section \<open>Runs of the programs on the small world\<close>

lemma body_not_blocked: "readChannel_body md5 c errs s ef \<noteq> Stop Blocked s'"
  by (auto simp: readChannel_body_def Let_def split: prod.splits option.splits if_splits)

lemma steps_not_blocked: "readChannel_steps md5 c errs s efs \<noteq> Stop Blocked s'"
proof (induction efs arbitrary: errs s)
  case Nil
  show ?case
    by simp
next
  case (Cons ef efs)
  then show ?case
    using body_not_blocked [of md5 c errs s ef]
    by (cases "readChannel_body md5 c errs s ef") auto
qed

lemma readChannel_closed_returns: "fst (readChannel md5 c s (efs, True)) \<noteq> Blocked"
  using steps_not_blocked [of md5 c 0 s efs]
  by (cases "readChannel_steps md5 c 0 s efs") (auto simp: readChannel_def)


lemma body_not_closed: "readChannel_body md5 c errs s ef \<noteq> Stop ChannelClosed s'"
  by (auto simp: readChannel_body_def Let_def split: prod.splits option.splits if_splits)

lemma steps_not_closed: "readChannel_steps md5 c errs s efs \<noteq> Stop ChannelClosed s'"
proof (induction efs arbitrary: errs s)
  case Nil
  show ?case
    by simp
next
  case (Cons ef efs)
  then show ?case
    using body_not_closed [of md5 c errs s ef]
    by (cases "readChannel_body md5 c errs s ef") auto
qed

lemma readChannel_open_never_breaks: "fst (readChannel md5 c s (efs, False)) \<noteq> ChannelClosed"
  using steps_not_closed [of md5 c 0 s efs]
  by (cases "readChannel_steps md5 c 0 s efs") (auto simp: readChannel_def)

lemma healthy_site_never_ends:
  assumes "healthy srv"
  shows "fst (pipeline md5 c srv dir st) \<noteq> ChannelClosed"
proof -
  obtain efs where "ftpWalk srv dir = (efs, False)"
    using healthy_site_never_closed [OF assms, of dir] by (cases "ftpWalk srv dir") auto
  then show ?thesis
    by (simp add: pipeline_def readChannel_open_never_breaks)
qed

text \<open>
  C1. The site \<open>small_tree\<close> holds one file, \<^verbatim>\<open>/a/updates.1\<close>, and every listing
  succeeds. The walk ends normally: the walker has sent the one descriptor and returns
  without closing the channel. The reader skips the file (the bucket holds the same
  content) and then waits on the channel for ever: it does not leave its loop.
\<close>

theorem full_walk_leaves_reader_blocked:
  "ftpWalk small_tree ''/'' = ([\<lparr>name = ''a/updates.1'', chksum = []\<rparr>], False) \<and>
   fst (pipeline toy_md5 (site_client no_faults) small_tree ''/'' synced_store) = Blocked \<and>
   metrics (snd (pipeline toy_md5 (site_client no_faults) small_tree ''/'' synced_store)) ''skip''
     = Some 1"
  by code_simp

text \<open>
  The other half of C1 holds: when a listing fails the walker closes the channel, and a
  reader whose channel is closed never waits (\<open>readChannel_closed_returns\<close>).
\<close>

lemma failed_walk_closes:
  "ftpWalk broken_tree ''/'' = ([\<lparr>name = ''a/updates.1'', chksum = []\<rparr>], True) \<and>
   fst (pipeline toy_md5 (site_client no_faults) broken_tree ''/'' synced_store) = ChannelClosed"
  by code_simp

text \<open>
  C3. On \<open>site_tree\<close> the folder \<^verbatim>\<open>/a/RIBS\<close> holds \<^verbatim>\<open>updates.9\<close> and \<^verbatim>\<open>full.1\<close>. The
  walker goes into it (the loop \<^verbatim>\<open>continue\<close>s on the folder itself and never calls
  \<^verbatim>\<open>SkipDir\<close>) and sends \<^verbatim>\<open>a/RIBS/updates.9\<close>.
\<close>

theorem ftpWalk_enters_RIBS:
  "ftpWalk site_tree ''/'' =
     ([\<lparr>name = ''a/RIBS/updates.9'', chksum = []\<rparr>, \<lparr>name = ''a/updates.1'', chksum = []\<rparr>],
      False)"
  by code_simp

text \<open>
  C4. \<^verbatim>\<open>RETR a/updates.2\<close> opens a stream whose read ends with "unexpected EOF" after
  one byte. \<open>getMD5ftp\<close> returns that byte and its fingerprint with no error, so the pass
  counts no error and sends an upload request for the partial content, which the server
  stores.
\<close>

theorem partial_read_is_uploaded:
  "(case readChannel_body toy_md5 (site_client no_faults) 0 (fresh empty_store)
           \<lparr>name = ''a/updates.2'', chksum = []\<rparr> of
      Continue errs s \<Rightarrow>
        errs = 0 \<and>
        requests s = [\<lparr>Filename = ''a/updates.2'', Content = [88],
                       Md5Sum = ''00000000000000000000000000000131'', Project = ROUTEVIEWS\<rparr>] \<and>
        metrics s ''sync'' = Some 1 \<and>
        map_option obj_bytes (objects (store s) ''a/updates.2'') = Some [88]
    | Stop e s \<Rightarrow> False)"
  by code_simp

section \<open>When every acknowledged write is committed, a second run skips everything\<close>

text \<open>
  The server changes the bytes of no object but the one named in the request, and after
  an upload that it acknowledges with a writer that closed, that object holds the content
  sent. Hence a run that reaches the end of a closed channel with no retrieval failure
  leaves the bucket settled for each of its descriptors, and a second run over them, with
  the same site and a bucket that answers its queries, skips each one.
\<close>

lemma fileStore_objects:
  "fileStore r st fn b = (st', err) \<Longrightarrow>
   objects st' = objects st \<or>
   (close_fault (sc r) fn = None \<and> copy_fault (sc r) fn = None \<and>
    objects st' = (objects st)(fn \<mapsto> \<lparr>obj_bytes = b, obj_project = None\<rparr>))"
  by (auto simp: fileStore_def NewWriter_def io_Copy_def Writer_Close_def
      split: option.splits prod.splits)

lemma fileStore_committed:
  "fileStore r st fn b = (st', None) \<Longrightarrow> close_fault (sc r) fn = None \<Longrightarrow>
   objects st' = (objects st)(fn \<mapsto> \<lparr>obj_bytes = b, obj_project = None\<rparr>)"
  by (auto simp: fileStore_def NewWriter_def io_Copy_def Writer_Close_def
      split: option.splits prod.splits)

lemma setProjectMeta_bytes:
  "setProjectMeta r st fn p = (st', err) \<Longrightarrow>
   map_option obj_bytes (objects st' k) = map_option obj_bytes (objects st k)"
  by (auto simp: setProjectMeta_def Object_Update_def Let_def split: option.splits prod.splits)

lemma handleDataFile_bytes:
  assumes "handleDataFile r st p resp fn b = (st', resp', err)"
  shows "map_option obj_bytes (objects st' k) = map_option obj_bytes (objects st k) \<or>
         (k = fn \<and> map_option obj_bytes (objects st' k) = Some b)"
proof -
  obtain st1 e1 where fs: "fileStore r st fn b = (st1, e1)"
    by (cases "fileStore r st fn b")
  obtain st2 e2 where sp: "setProjectMeta r st1 fn p = (st2, e2)"
    by (cases "setProjectMeta r st1 fn p")
  from assms fs sp have "st' = st1 \<or> st' = st2"
    by (auto simp: handleDataFile_def split: option.splits)
  with setProjectMeta_bytes [OF sp, of k] fileStore_objects [OF fs]
  show ?thesis
    by (auto split: if_splits)
qed

lemma handleDataFile_committed:
  assumes "handleDataFile r st p resp fn b = (st', resp', None)"
    and "close_fault (sc r) fn = None"
  shows "map_option obj_bytes (objects st' fn) = Some b"
proof -
  obtain st1 e1 where fs: "fileStore r st fn b = (st1, e1)"
    by (cases "fileStore r st fn b")
  obtain st2 e2 where sp: "setProjectMeta r st1 fn p = (st2, e2)"
    by (cases "setProjectMeta r st1 fn p")
  from assms fs sp have "e1 = None" and "st' = st2"
    by (auto simp: handleDataFile_def split: option.splits)
  with setProjectMeta_bytes [OF sp, of fn] fileStore_committed [OF _ assms(2), of st b st1] fs
  show ?thesis
    by simp
qed

lemma FileUpload_bytes:
  assumes "FileUpload md5 r st req = (st', resp, err)"
  shows "map_option obj_bytes (objects st' k) = map_option obj_bytes (objects st k) \<or>
         (k = Filename req \<and> map_option obj_bytes (objects st' k) = Some (Content req))"
  using assms handleDataFile_bytes [of r st _ _ "Filename req" "Content req" st' resp err k]
  by (auto simp: FileUpload_def Let_def split: if_splits)

lemma FileUpload_committed:
  assumes "FileUpload md5 r st req = (st', resp, None)"
    and "close_fault (sc r) (Filename req) = None"
  shows "map_option obj_bytes (objects st' (Filename req)) = Some (Content req)"
  using assms handleDataFile_committed [of r st _ _ "Filename req" "Content req" st' resp]
  by (auto simp: FileUpload_def Let_def split: if_splits)

lemma gClient_bytes:
  assumes "gClient_FileUpload md5 c st req = (st', resp, err)"
  shows "map_option obj_bytes (objects st' k) = map_option obj_bytes (objects st k) \<or>
         (k = Filename req \<and> map_option obj_bytes (objects st' k) = Some (Content req))"
proof (cases "rpc_fault c (Filename req)")
  case (Some e)
  with assms show ?thesis
    by (simp add: gClient_FileUpload_def)
next
  case None
  obtain st1 r1 e1 where fu: "FileUpload md5 (gClient c) st req = (st1, r1, e1)"
    by (rule prod_cases3)
  with assms None have "st' = st1"
    by (auto simp: gClient_FileUpload_def split: option.splits)
  with FileUpload_bytes [OF fu, of k] show ?thesis
    by simp
qed

lemma gClient_committed:
  assumes "gClient_FileUpload md5 c st req = (st', resp, None)"
    and "close_fault (sc (gClient c)) (Filename req) = None"
  shows "map_option obj_bytes (objects st' (Filename req)) = Some (Content req)"
proof (cases "rpc_fault c (Filename req)")
  case (Some e)
  with assms show ?thesis
    by (simp add: gClient_FileUpload_def)
next
  case None
  obtain st1 r1 e1 where fu: "FileUpload md5 (gClient c) st req = (st1, r1, e1)"
    by (rule prod_cases3)
  with assms None have "st' = st1" and "e1 = None"
    by (auto simp: gClient_FileUpload_def split: option.splits)
  with FileUpload_committed [OF _ assms(2), of md5 st st1 r1] fu show ?thesis
    by simp
qed


lemma settled_iff:
  "settled md5 c st ef \<longleftrightarrow>
     (\<exists>buf rerr b. fc c (name ef) = RetrStream buf rerr \<and>
        map_option obj_bytes (objects st (name ef)) = Some b \<and>
        hexsum md5 b = hexsum md5 buf)"
  by (auto simp: settled_def split: retr.splits option.splits)

lemma body_bytes:
  "map_option obj_bytes (objects (store (step_run (readChannel_body md5 c errs s ef))) k) =
     map_option obj_bytes (objects (store s) k) \<or>
   (k = name ef \<and>
    (\<exists>buf rerr. fc c (name ef) = RetrStream buf rerr \<and>
       map_option obj_bytes (objects (store (step_run (readChannel_body md5 c errs s ef))) k) =
         Some buf))"
proof (cases "fc c (name ef)")
  case (RetrFailed x)
  then show ?thesis
    by (auto simp: readChannel_body_def getMD5ftp_def Let_def split: prod.splits)
next
  case (RetrStream b r)
  obtain st' resp err where
    up: "gClient_FileUpload md5 c (store s)
           \<lparr>Filename = name ef, Content = b, Md5Sum = hexsum md5 b, Project = ROUTEVIEWS\<rparr> =
         (st', resp, err)"
    by (rule prod_cases3)
  from gClient_bytes [OF up, of k] RetrStream up show ?thesis
    by (auto simp: readChannel_body_def getMD5ftp_def Let_def split: prod.splits)
qed

lemma body_keeps_settled:
  assumes "settled md5 c (store s) x"
  shows "settled md5 c (store (step_run (readChannel_body md5 c errs s ef))) x"
  using assms body_bytes [of md5 c errs s ef "name x"]
  by (auto simp: settled_iff)

lemma body_settles:
  assumes b: "readChannel_body md5 c errs s ef = Continue errs' s'"
    and ok: "\<not> retr_fails md5 c ef"
    and cl: "close_fault (sc (gClient c)) (name ef) = None"
    and nm: "TrimLeft (name ef) ''/'' = name ef"
  shows "settled md5 c (store s') ef"
proof (cases "fc c (name ef)")
  case (RetrFailed x)
  with ok show ?thesis
    by (simp add: retr_fails_def getMD5ftp_def)
next
  case (RetrStream buf r)
  obtain st' resp err where
    up: "gClient_FileUpload md5 c (store s)
           \<lparr>Filename = name ef, Content = buf, Md5Sum = hexsum md5 buf, Project = ROUTEVIEWS\<rparr> =
         (st', resp, err)"
    by (rule prod_cases3)
  obtain cs0 cerr where q: "getMD5cloud md5 c (store s) (name ef) = (cs0, cerr)"
    by (cases "getMD5cloud md5 c (store s) (name ef)")
  show ?thesis
  proof (cases "cerr = None \<and> cs0 = hexsum md5 buf")
    case True
    with q obtain ob where "objects (store s) (name ef) = Some ob"
      and "hexsum md5 (obj_bytes ob) = hexsum md5 buf"
      by (auto simp: getMD5cloud_def Object_Attrs_def hexsum_def split: option.splits sum.splits)
    moreover from True b q RetrStream nm have "s' = s\<lparr>metrics := incr (metrics s) ''skip''\<rparr>"
      by (auto simp: readChannel_body_def getMD5ftp_def Let_def split: if_splits)
    ultimately show ?thesis
      using RetrStream by (simp add: settled_def)
  next
    case False
    have ne: "[] \<noteq> hexsum md5 buf"
      using hexsum_length [of md5 buf] by auto
    from False ne b q RetrStream nm up have "err = None" and "store s' = st'"
      by (auto simp: readChannel_body_def getMD5ftp_def Let_def split: if_splits option.splits)
    with up have up': "gClient_FileUpload md5 c (store s)
           \<lparr>Filename = name ef, Content = buf, Md5Sum = hexsum md5 buf, Project = ROUTEVIEWS\<rparr> =
         (store s', resp, None)"
      by simp
    from gClient_committed [OF up'] cl
    have "map_option obj_bytes (objects (store s') (name ef)) = Some buf"
      by simp
    with RetrStream show ?thesis
      unfolding settled_iff by blast
  qed
qed

lemma body_skips:
  assumes st: "settled md5 c (store s) ef"
    and same: "fc c2 = fc c"
    and at: "attrs_fault (bh c2) (name ef) = None"
    and nm: "TrimLeft (name ef) ''/'' = name ef"
  shows "readChannel_body md5 c2 errs s ef = Continue errs (s\<lparr>metrics := incr (metrics s) ''skip''\<rparr>)"
  using assms
  by (auto simp: readChannel_body_def getMD5ftp_def getMD5cloud_def Object_Attrs_def
        settled_def hexsum_def Let_def split: retr.splits option.splits)


lemma steps_keep_settled:
  "settled md5 c (store s) x \<Longrightarrow> readChannel_steps md5 c errs s efs = Continue errs' s' \<Longrightarrow>
   settled md5 c (store s') x"
proof (induction efs arbitrary: errs s)
  case Nil
  then show ?case
    by simp
next
  case (Cons ef efs)
  show ?case
  proof (cases "readChannel_body md5 c errs s ef")
    case (Continue e1 s1)
    with body_keeps_settled [OF Cons.prems(1), of errs ef] have "settled md5 c (store s1) x"
      by simp
    moreover from Continue Cons.prems(2) have "readChannel_steps md5 c e1 s1 efs = Continue errs' s'"
      by simp
    ultimately show ?thesis
      by (rule Cons.IH)
  next
    case (Stop e1 s1)
    with Cons.prems(2) show ?thesis
      by simp
  qed
qed

lemma steps_settle:
  assumes "readChannel_steps md5 c errs s efs = Continue errs' s'"
    and "\<forall>ef \<in> set efs. \<not> retr_fails md5 c ef \<and> close_fault (sc (gClient c)) (name ef) = None \<and>
           TrimLeft (name ef) ''/'' = name ef"
  shows "\<forall>ef \<in> set efs. settled md5 c (store s') ef"
  using assms
proof (induction efs arbitrary: errs s)
  case Nil
  show ?case
    by simp
next
  case (Cons ef efs)
  show ?case
  proof (cases "readChannel_body md5 c errs s ef")
    case (Continue e1 s1)
    with Cons.prems(1) have rest: "readChannel_steps md5 c e1 s1 efs = Continue errs' s'"
      by simp
    from Cons.prems(2) have "settled md5 c (store s1) ef"
      by (intro body_settles [OF Continue]) simp_all
    then have "settled md5 c (store s') ef"
      using rest by (rule steps_keep_settled)
    moreover from Cons.prems(2) have "\<forall>ef \<in> set efs. settled md5 c (store s') ef"
      by (intro Cons.IH [OF rest]) simp
    ultimately show ?thesis
      by simp
  next
    case (Stop e1 s1)
    with Cons.prems(1) show ?thesis
      by simp
  qed
qed

lemma steps_all_skipped:
  assumes "fc c2 = fc c"
  shows "\<forall>ef \<in> set efs. settled md5 c st ef \<and> attrs_fault (bh c2) (name ef) = None \<and>
           TrimLeft (name ef) ''/'' = name ef \<Longrightarrow>
         m ''skip'' = Some v \<Longrightarrow>
         readChannel_steps md5 c2 errs \<lparr>store = st, metrics = m, requests = rq\<rparr> efs =
           Continue errs
             \<lparr>store = st, metrics = m(''skip'' \<mapsto> v + int (length efs)), requests = rq\<rparr>"
proof (induction efs arbitrary: m v)
  case Nil
  then show ?case
    by (simp add: fun_upd_idem)
next
  case (Cons ef efs)
  have "readChannel_body md5 c2 errs \<lparr>store = st, metrics = m, requests = rq\<rparr> ef =
          Continue errs (\<lparr>store = st, metrics = m, requests = rq\<rparr>
            \<lparr>metrics := incr (metrics \<lparr>store = st, metrics = m, requests = rq\<rparr>) ''skip''\<rparr>)"
    using Cons.prems(1) by (intro body_skips [OF _ assms]) simp_all
  then have b: "readChannel_body md5 c2 errs \<lparr>store = st, metrics = m, requests = rq\<rparr> ef =
          Continue errs \<lparr>store = st, metrics = m(''skip'' \<mapsto> v + 1), requests = rq\<rparr>"
    using Cons.prems(2) by (simp add: incr_def)
  have "readChannel_steps md5 c2 errs
          \<lparr>store = st, metrics = m(''skip'' \<mapsto> v + 1), requests = rq\<rparr> efs =
        Continue errs
          \<lparr>store = st, metrics = (m(''skip'' \<mapsto> v + 1))(''skip'' \<mapsto> (v + 1) + int (length efs)),
           requests = rq\<rparr>"
    using Cons.prems(1) by (intro Cons.IH) simp_all
  moreover have "v + 1 + int (length efs) = v + int (length (ef # efs))"
    by simp
  ultimately have "readChannel_steps md5 c2 errs
          \<lparr>store = st, metrics = m(''skip'' \<mapsto> v + 1), requests = rq\<rparr> efs =
        Continue errs
          \<lparr>store = st, metrics = m(''skip'' \<mapsto> v + int (length (ef # efs))), requests = rq\<rparr>"
    by (simp only: fun_upd_upd)
  then show ?case
    by (simp only: readChannel_steps.simps b step.case)
qed

lemma idempotent_when_writes_commit:
  assumes run1: "readChannel md5 c (fresh st0) (efs, True) = (ChannelClosed, s1)"
    and ok: "failures md5 c efs = 0"
    and cl: "\<forall>k. close_fault (sc (gClient c)) k = None"
    and nm: "\<forall>ef \<in> set efs. TrimLeft (name ef) ''/'' = name ef"
    and same: "fc c2 = fc c"
    and at: "\<forall>k. attrs_fault (bh c2) k = None"
  shows "readChannel md5 c2 (fresh (store s1)) (efs, True) =
     (ChannelClosed,
      \<lparr>store = store s1, metrics = new_metrics(''skip'' \<mapsto> int (length efs)), requests = []\<rparr>)"
proof -
  from run1 steps_not_closed [of md5 c 0 "fresh st0" efs]
  obtain e where st: "readChannel_steps md5 c 0 (fresh st0) efs = Continue e s1"
    by (cases "readChannel_steps md5 c 0 (fresh st0) efs") (auto simp: readChannel_def)
  from ok have "\<forall>ef \<in> set efs. \<not> retr_fails md5 c ef"
    by (auto simp: failures_def filter_empty_conv)
  with cl nm have "\<forall>ef \<in> set efs. settled md5 c (store s1) ef"
    by (intro steps_settle [OF st]) simp
  with at nm have "readChannel_steps md5 c2 0
        \<lparr>store = store s1, metrics = new_metrics, requests = []\<rparr> efs =
      Continue 0 \<lparr>store = store s1, metrics = new_metrics(''skip'' \<mapsto> 0 + int (length efs)),
                  requests = []\<rparr>"
    by (intro steps_all_skipped [OF same]) (simp_all add: new_metrics_def)
  then show ?thesis
    by (simp add: readChannel_def fresh_def)
qed

text \<open>
  The spec's second scenario: the bucket is empty, the first run uploads
  \<^verbatim>\<open>a/updates.1\<close>, and the second run skips it.
\<close>

lemma second_run_skips_after_commit:
  "(case readChannel toy_md5 (site_client no_faults) (fresh empty_store)
           ([\<lparr>name = ''a/updates.1'', chksum = []\<rparr>], True) of
      (e1, s1) \<Rightarrow>
        e1 = ChannelClosed \<and> metrics s1 ''sync'' = Some 1 \<and>
        map_option obj_bytes (objects (store s1) ''a/updates.1'') = Some [88] \<and>
        (case readChannel toy_md5 (site_client no_faults) (fresh (store s1))
                ([\<lparr>name = ''a/updates.1'', chksum = []\<rparr>], True) of
           (e2, s2) \<Rightarrow>
             e2 = ChannelClosed \<and> metrics s2 ''sync'' = Some 0 \<and> metrics s2 ''skip'' = Some 1))"
  by code_simp

text \<open>
  C5. The bucket holds an old version \<open>Y\<close> of \<^verbatim>\<open>a/updates.1\<close>, the site holds \<open>X\<close>. In
  the first run the server's writer fails on close; \<open>fileStore\<close> drops that error, the
  metadata update finds the old object, and the engine counts the file as synced and ends
  with no error. The bucket still holds \<open>Y\<close>, so a second run over the same descriptor,
  with nothing failing, uploads the file again: sync is 1 and skip is 0. Without the lost
  write the second run skips everything (\<open>idempotent_when_writes_commit\<close>).
\<close>

theorem second_run_syncs_again:
  "(case readChannel toy_md5 (site_client close_fails) (fresh old_store)
           ([\<lparr>name = ''a/updates.1'', chksum = []\<rparr>], True) of
      (e1, s1) \<Rightarrow>
        e1 = ChannelClosed \<and>
        metrics s1 ''sync'' = Some 1 \<and> metrics s1 ''skip'' = Some 0 \<and>
        metrics s1 ''error'' = Some 0 \<and>
        map_option obj_bytes (objects (store s1) ''a/updates.1'') = Some [89] \<and>
        (case readChannel toy_md5 (site_client no_faults) (fresh (store s1))
                ([\<lparr>name = ''a/updates.1'', chksum = []\<rparr>], True) of
           (e2, s2) \<Rightarrow>
             e2 = ChannelClosed \<and> metrics s2 ''sync'' = Some 1 \<and> metrics s2 ''skip'' = Some 0))"
  by code_simp

end
